theory Spec2Isabelle
  imports Main "HOL-Library.Word"
begin

section \<open>The room editor and the dashboard of the text-sharing client\<close>

text \<open>
  The development embeds the reconciliation logic of the room editor component
  (\<^verbatim>\<open>Room\<close>: the realtime UPDATE callback, \<^verbatim>\<open>isNewer\<close>, \<^verbatim>\<open>loadRoom\<close>,
  \<^verbatim>\<open>handleSave\<close>) and two handlers of the dashboard (\<^verbatim>\<open>generateRoomCode\<close>,
  \<^verbatim>\<open>handleJoinRoom\<close>).

  Conventions of the embedding:
  \<^item> a value of TypeScript type \<^verbatim>\<open>string | null\<close> is a \<open>string option\<close>; \<open>None\<close> stands
    for \<^verbatim>\<open>null\<close> and for \<^verbatim>\<open>undefined\<close>, which the code never tells apart (both are
    falsy, and \<^verbatim>\<open>x ?? null\<close> turns both into \<^verbatim>\<open>null\<close>);
  \<^item> React state cells and refs are the fields of one record, every handler takes the
    record and returns it updated;
  \<^item> what a handler does to the outside (toasts, navigation, requests to the store) is
    appended to logs kept in the same record;
  \<^item> what the outside answers (the result of an awaited request, the clock reading, the
    text of the random number) is an argument of the handler;
  \<^item> an asynchronous handler is one step: it starts from the state at the call, takes the
    awaited answer as an argument, and no other handler runs before it ends;
  \<^item> a state cell of the record holds the value the next render shows, a ref holds what
    was last written to it;
  \<^item> \<^verbatim>\<open>Date.parse\<close> is an argument \<open>parse\<close> of type \<open>string \<Rightarrow> int option\<close>: the time value in
    milliseconds, \<open>None\<close> for \<^verbatim>\<open>NaN\<close>. The theorems hold for every such function.
    \<open>Date_parse\<close> below is the instance used on concrete inputs;
  \<^item> the texts of the room editor are only compared, tested for emptiness and parsed, and
    are \<open>string\<close>s. The dashboard takes text apart, so its texts are sequences of UTF-16
    code units, as JavaScript strings are, and \<^verbatim>\<open>trim\<close> and \<^verbatim>\<open>toUpperCase\<close> are
    arguments of its handlers, as \<^verbatim>\<open>Date.parse\<close> is.
\<close>

subsection \<open>JavaScript values\<close>

text \<open>Truthiness of a \<^verbatim>\<open>string | null | undefined\<close>: the empty string is falsy.\<close>

definition truthy :: "string option \<Rightarrow> bool" where
  "truthy a = (case a of None \<Rightarrow> False | Some x \<Rightarrow> x \<noteq> [])"

text \<open>\<^verbatim>\<open>x ?? ""\<close>\<close>

definition or_empty :: "string option \<Rightarrow> string" where
  "or_empty a = (case a of None \<Rightarrow> [] | Some x \<Rightarrow> x)"

text \<open>The result of an awaited promise: it resolves to a value or it rejects (throws).\<close>

datatype 'a awaited = Resolved 'a | Rejected

subsection \<open>\<^verbatim>\<open>Date.parse\<close> on the date-time string format\<close>

text \<open>
  The instance of \<^verbatim>\<open>Date.parse\<close> used on concrete inputs reads the UTC forms
  \<^verbatim>\<open>YYYY-MM-DDTHH:mm:ssZ\<close> and \<^verbatim>\<open>YYYY-MM-DDTHH:mm:ss.sssZ\<close> of the ECMAScript date-time
  string format (the second is what \<^verbatim>\<open>toISOString\<close> writes) and gives the milliseconds
  since 1970-01-01T00:00:00Z. Every other string is \<open>None\<close> here.
\<close>

definition digit_val :: "char \<Rightarrow> nat option" where
  "digit_val c =
     (let n = (of_char c :: nat) in if 48 \<le> n \<and> n \<le> 57 then Some (n - 48) else None)"

fun digits_acc :: "nat \<Rightarrow> string \<Rightarrow> nat option" where
  "digits_acc acc [] = Some acc"
| "digits_acc acc (c # cs) =
     (case digit_val c of None \<Rightarrow> None | Some d \<Rightarrow> digits_acc (10 * acc + d) cs)"

definition digits :: "string \<Rightarrow> nat option" where
  "digits s = (if s = [] then None else digits_acc 0 s)"

definition is_leap :: "nat \<Rightarrow> bool" where
  "is_leap y = ((y mod 4 = 0 \<and> y mod 100 \<noteq> 0) \<or> y mod 400 = 0)"

definition days_in_month :: "nat \<Rightarrow> nat \<Rightarrow> nat" where
  "days_in_month y m =
     (if m = 2 then (if is_leap y then 29 else 28)
      else if m = 4 \<or> m = 6 \<or> m = 9 \<or> m = 11 then 30 else 31)"

text \<open>Days from 1970-01-01 to the given civil date of the proleptic Gregorian calendar.\<close>

definition days_from_civil :: "nat \<Rightarrow> nat \<Rightarrow> nat \<Rightarrow> int" where
  "days_from_civil y m d =
     (let y' = (if m \<le> 2 then int y - 1 else int y);
          era = y' div 400;
          yoe = y' - era * 400;
          mp = (if m > 2 then int m - 3 else int m + 9);
          doy = (153 * mp + 2) div 5 + int d - 1;
          doe = yoe * 365 + yoe div 4 - yoe div 100 + doy
      in era * 146097 + doe - 719468)"

definition make_time :: "nat \<Rightarrow> nat \<Rightarrow> nat \<Rightarrow> nat \<Rightarrow> nat \<Rightarrow> nat \<Rightarrow> nat \<Rightarrow> int option" where
  "make_time y m d h mi sec ms =
     (if 1 \<le> m \<and> m \<le> 12 \<and> 1 \<le> d \<and> d \<le> days_in_month y m \<and> h \<le> 23 \<and> mi \<le> 59 \<and> sec \<le> 59
      then Some ((((days_from_civil y m d * 24 + int h) * 60 + int mi) * 60 + int sec) * 1000
                 + int ms)
      else None)"

definition Date_parse :: "string \<Rightarrow> int option" where
  "Date_parse s =
     (if (length s = 20 \<or> (length s = 24 \<and> s ! 19 = CHR ''.''))
         \<and> s ! 4 = CHR ''-'' \<and> s ! 7 = CHR ''-'' \<and> s ! 10 = CHR ''T''
         \<and> s ! 13 = CHR '':'' \<and> s ! 16 = CHR '':'' \<and> last s = CHR ''Z''
      then
        (case (digits (take 4 s), digits (take 2 (drop 5 s)), digits (take 2 (drop 8 s)),
               digits (take 2 (drop 11 s)), digits (take 2 (drop 14 s)),
               digits (take 2 (drop 17 s)),
               (if length s = 24 then digits (take 3 (drop 20 s)) else Some 0)) of
           (Some y, Some m, Some d, Some h, Some mi, Some sec, Some ms) \<Rightarrow>
             make_time y m d h mi sec ms
         | _ \<Rightarrow> None)
      else None)"

subsection \<open>The data of the room editor\<close>

text \<open>\<^verbatim>\<open>type RoomRow\<close>, with \<open>id_col\<close> and \<open>content_col\<close> for the columns \<^verbatim>\<open>id\<close> and
  \<^verbatim>\<open>content\<close>.\<close>

record RoomRow =
  id_col :: string
  code :: string
  name :: "string option"
  content_col :: "string option"
  editor_email :: "string option"
  updated_at :: "string option"

text \<open>The user of the session, as far as the editor reads it.\<close>

record User =
  user_id :: string
  email :: "string option"

record toast_msg =
  title :: string
  description :: string
  destructive :: bool

text \<open>The body of the \<^verbatim>\<open>update\<close> sent by \<^verbatim>\<open>handleSave\<close>, with the code it is filtered by.\<close>

record room_update =
  upd_content :: string
  upd_editor_email :: "string option"
  upd_updated_at :: string
  upd_code :: string

datatype request = Select string | Update room_update

text \<open>An error object of the store client, with its \<^verbatim>\<open>code\<close>.\<close>

record store_error =
  err_code :: "string option"

text \<open>What \<^verbatim>\<open>.single()\<close> resolves to: \<^verbatim>\<open>{ data, error }\<close>.\<close>

record fetch_result =
  fdata :: "RoomRow option"
  ferror :: "store_error option"

text \<open>
  The state of the component: the four \<^verbatim>\<open>useState\<close> cells, the two refs
  (\<open>lastAppliedAt\<close> is the watermark), and the logs of the effects.
\<close>

record Room_state =
  roomData :: "RoomRow option"
  content :: string
  isSaving :: bool
  loading :: bool
  lastAppliedAt :: "string option"
  myEmail :: "string option"
  toasts :: "toast_msg list"
  navigated :: "string list"
  requests :: "request list"

text \<open>The state at mount.\<close>

definition initial_state :: Room_state where
  "initial_state =
     \<lparr>roomData = None, content = [], isSaving = False, loading = True,
      lastAppliedAt = None, myEmail = None, toasts = [], navigated = [], requests = []\<rparr>"

definition toast :: "toast_msg \<Rightarrow> Room_state \<Rightarrow> Room_state" where
  "toast t s = s\<lparr>toasts := toasts s @ [t]\<rparr>"

definition navigate :: "string \<Rightarrow> Room_state \<Rightarrow> Room_state" where
  "navigate p s = s\<lparr>navigated := navigated s @ [p]\<rparr>"

text \<open>The effect that keeps \<^verbatim>\<open>myEmailRef\<close> at \<^verbatim>\<open>user?.email ?? null\<close>.\<close>

definition syncMyEmail :: "User option \<Rightarrow> Room_state \<Rightarrow> Room_state" where
  "syncMyEmail user s =
     s\<lparr>myEmail := (case user of None \<Rightarrow> None | Some u \<Rightarrow> email u)\<rparr>"

subsection \<open>\<^verbatim>\<open>isNewer\<close>\<close>

text \<open>\<^verbatim>\<open>Date.parse(a as string)\<close>; of \<^verbatim>\<open>null\<close> it is \<^verbatim>\<open>NaN\<close>.\<close>

definition parse_arg :: "(string \<Rightarrow> int option) \<Rightarrow> string option \<Rightarrow> int option" where
  "parse_arg parse a = (case a of None \<Rightarrow> None | Some x \<Rightarrow> parse x)"

definition isNewer :: "(string \<Rightarrow> int option) \<Rightarrow> string option \<Rightarrow> string option \<Rightarrow> bool" where
  "isNewer parse a b =
     (if \<not> truthy a \<and> \<not> truthy b then False
      else if truthy a \<and> \<not> truthy b then True
      else if \<not> truthy a \<and> truthy b then False
      else (case (parse_arg parse a, parse_arg parse b) of
              (Some da, Some db) \<Rightarrow> da > db
            | _ \<Rightarrow> truthy a \<and> \<not> truthy b))"

subsection \<open>The realtime UPDATE callback\<close>

text \<open>\<^verbatim>\<open>myEmailRef.current && next.editor_email && next.editor_email === myEmailRef.current\<close>\<close>

definition isSelfUpdate :: "string option \<Rightarrow> RoomRow \<Rightarrow> bool" where
  "isSelfUpdate me next =
     (truthy me \<and> truthy (editor_email next) \<and> editor_email next = me)"

text \<open>\<^verbatim>\<open>{ ...(prev ?? {}), ...next }\<close>: every column of \<open>next\<close> overrides.\<close>

definition spread :: "RoomRow option \<Rightarrow> RoomRow \<Rightarrow> RoomRow" where
  "spread prev next =
     (case prev of
        None \<Rightarrow> next
      | Some p \<Rightarrow> p\<lparr>id_col := id_col next, code := code next, name := name next,
                    content_col := content_col next, editor_email := editor_email next,
                    updated_at := updated_at next\<rparr>)"

text \<open>The callback, applied to \<^verbatim>\<open>payload.new\<close> (\<open>None\<close> when the payload has none).\<close>

definition onRemoteUpdate ::
  "(string \<Rightarrow> int option) \<Rightarrow> RoomRow option \<Rightarrow> Room_state \<Rightarrow> Room_state" where
  "onRemoteUpdate parse payload_new s =
     (case payload_new of
        None \<Rightarrow> s
      | Some next \<Rightarrow>
          if isSelfUpdate (myEmail s) next then
            s\<lparr>lastAppliedAt :=
                 (if isNewer parse (updated_at next) (lastAppliedAt s) then updated_at next
                  else lastAppliedAt s),
              roomData := Some (spread (roomData s) next)\<rparr>
          else if \<not> isNewer parse (updated_at next) (lastAppliedAt s) then s
          else s\<lparr>lastAppliedAt := updated_at next,
                 roomData := Some next,
                 content := or_empty (content_col next)\<rparr>)"

text \<open>A sequence of deliveries, first to last.\<close>

fun deliver :: "(string \<Rightarrow> int option) \<Rightarrow> RoomRow list \<Rightarrow> Room_state \<Rightarrow> Room_state" where
  "deliver parse [] s = s"
| "deliver parse (e # es) s = deliver parse es (onRemoteUpdate parse (Some e) s)"

subsection \<open>\<^verbatim>\<open>loadRoom\<close>\<close>

definition room_not_found :: toast_msg where
  "room_not_found =
     \<lparr>title = ''Room not found'',
      description = ''This room doesn't exist or you don't have access to it.'',
      destructive = True\<rparr>"

definition load_failed :: toast_msg where
  "load_failed =
     \<lparr>title = ''Error'', description = ''Failed to load room data.'', destructive = True\<rparr>"

text \<open>The \<^verbatim>\<open>finally\<close> block of \<^verbatim>\<open>loadRoom\<close>.\<close>

definition load_finally :: "bool \<Rightarrow> Room_state \<Rightarrow> Room_state" where
  "load_finally isMounted s = (if isMounted then s\<lparr>loading := False\<rparr> else s)"

text \<open>The \<^verbatim>\<open>catch\<close> block of \<^verbatim>\<open>loadRoom\<close>.\<close>

definition load_catch :: "Room_state \<Rightarrow> Room_state" where
  "load_catch s = navigate ''/dashboard'' (toast load_failed s)"

text \<open>\<^verbatim>\<open>error && (error as any).code !== "PGRST116"\<close>\<close>

definition load_throws :: "fetch_result \<Rightarrow> bool" where
  "load_throws r =
     (case ferror r of None \<Rightarrow> False | Some e \<Rightarrow> err_code e \<noteq> Some ''PGRST116'')"

text \<open>
  \<^verbatim>\<open>loadRoom(code, isMounted)\<close>, with the user of the enclosing render and the outcome
  of the awaited query. The query is sent once.
\<close>

definition loadRoom ::
  "User option \<Rightarrow> string \<Rightarrow> bool \<Rightarrow> fetch_result awaited \<Rightarrow> Room_state \<Rightarrow> Room_state" where
  "loadRoom user c isMounted res s =
     (if user = None then s
      else
        let s1 = s\<lparr>requests := requests s @ [Select c]\<rparr> in
        load_finally isMounted
          (case res of
             Rejected \<Rightarrow> load_catch s1
           | Resolved r \<Rightarrow>
               if load_throws r then load_catch s1
               else
                 (case fdata r of
                    Some room \<Rightarrow>
                      (let s2 = s1\<lparr>lastAppliedAt := updated_at room\<rparr> in
                       if isMounted
                       then s2\<lparr>roomData := Some room, content := or_empty (content_col room)\<rparr>
                       else s2)
                  | None \<Rightarrow> navigate ''/dashboard'' (toast room_not_found s1))))"

subsection \<open>\<^verbatim>\<open>handleSave\<close>\<close>

definition saved_successfully :: toast_msg where
  "saved_successfully =
     \<lparr>title = ''Saved successfully'',
      description = ''Your text has been saved to the room'',
      destructive = False\<rparr>"

definition save_failed :: toast_msg where
  "save_failed =
     \<lparr>title = ''Save failed'',
      description = ''There was an error saving your text'',
      destructive = True\<rparr>"

text \<open>
  \<^verbatim>\<open>handleSave()\<close>, with the user and the route parameter of the enclosing render, the
  reading \<open>nowIso\<close> of the clock (\<^verbatim>\<open>new Date().toISOString()\<close>) and the outcome of the
  awaited update: \<^verbatim>\<open>{ error }\<close>, \<open>None\<close> for no error.
\<close>

definition handleSave ::
  "User option \<Rightarrow> string option \<Rightarrow> string \<Rightarrow> store_error option awaited \<Rightarrow>
   Room_state \<Rightarrow> Room_state" where
  "handleSave user roomCode nowIso res s =
     (case user of
        None \<Rightarrow> s
      | Some u \<Rightarrow>
          if \<not> truthy roomCode then s
          else
            let s1 = s\<lparr>isSaving := True\<rparr>;
                s2 = s1\<lparr>requests := requests s1 @
                         [Update \<lparr>upd_content = content s1, upd_editor_email = email u,
                                  upd_updated_at = nowIso, upd_code = or_empty roomCode\<rparr>]\<rparr>;
                s3 = (case res of
                        Resolved None \<Rightarrow>
                          toast saved_successfully (s2\<lparr>lastAppliedAt := Some nowIso\<rparr>)
                      | _ \<Rightarrow> toast save_failed s2)
            in s3\<lparr>isSaving := False\<rparr>)"

text \<open>Whether the call wrote to the store: it passed the guard and the update gave no error.\<close>

definition save_succeeds :: "User option \<Rightarrow> string option \<Rightarrow> store_error option awaited \<Rightarrow> bool" where
  "save_succeeds user roomCode res = (user \<noteq> None \<and> truthy roomCode \<and> res = Resolved None)"

text \<open>Whether the call sent the update and it failed.\<close>

definition save_fails :: "User option \<Rightarrow> string option \<Rightarrow> store_error option awaited \<Rightarrow> bool" where
  "save_fails user roomCode res = (user \<noteq> None \<and> truthy roomCode \<and> res \<noteq> Resolved None)"

subsection \<open>The component between renders\<close>

text \<open>
  In the self branch the callback writes the watermark inside the updater it gives to
  \<^verbatim>\<open>setRoomData\<close>. React runs an updater when it processes the update: at once, or at
  the next render, after other handlers have run. \<open>onRemoteUpdate\<close> above is the callback
  with its updater run at once. The component below also carries the events whose
  updater has not run yet, in the order of their delivery. The room record in \<open>cells\<close> is
  the one the next render shows: each update of it is a row, or the updater, whose
  result \<^verbatim>\<open>{ ...prev, ...next }\<close> is \<open>next\<close> whatever \<open>prev\<close> is.
\<close>

record Room_component =
  cells :: Room_state
  pending :: "RoomRow list"

definition mounted :: "Room_state \<Rightarrow> Room_component" where
  "mounted s = \<lparr>cells = s, pending = []\<rparr>"

text \<open>What running the updater of the event \<open>next\<close> does to the ref.\<close>

definition updater_effect :: "(string \<Rightarrow> int option) \<Rightarrow> RoomRow \<Rightarrow> Room_state \<Rightarrow> Room_state" where
  "updater_effect parse next s =
     s\<lparr>lastAppliedAt :=
         (if isNewer parse (updated_at next) (lastAppliedAt s) then updated_at next
          else lastAppliedAt s)\<rparr>"

text \<open>
  The callback: the self branch hands its updater to React, the other branches are those
  of \<open>onRemoteUpdate\<close>, which have no updater.
\<close>

definition receive ::
  "(string \<Rightarrow> int option) \<Rightarrow> RoomRow option \<Rightarrow> Room_component \<Rightarrow> Room_component" where
  "receive parse payload_new c =
     (case payload_new of
        None \<Rightarrow> c
      | Some next \<Rightarrow>
          if isSelfUpdate (myEmail (cells c)) next then
            c\<lparr>cells := (cells c)\<lparr>roomData := Some (spread (roomData (cells c)) next)\<rparr>,
              pending := pending c @ [next]\<rparr>
          else c\<lparr>cells := onRemoteUpdate parse (Some next) (cells c)\<rparr>)"

text \<open>React processes the updates: the pending updaters run, first to last.\<close>

definition render :: "(string \<Rightarrow> int option) \<Rightarrow> Room_component \<Rightarrow> Room_component" where
  "render parse c =
     \<lparr>cells = foldl (\<lambda>s next. updater_effect parse next s) (cells c) (pending c),
      pending = []\<rparr>"

subsection \<open>Sequences of operations\<close>

datatype operation =
    Load "User option" string bool "fetch_result awaited"
  | Save "User option" "string option" string "store_error option awaited"
  | OnRemoteUpdate "RoomRow option"
  | Render

fun step :: "(string \<Rightarrow> int option) \<Rightarrow> operation \<Rightarrow> Room_component \<Rightarrow> Room_component" where
  "step parse (Load user c isMounted res) cm =
     cm\<lparr>cells := loadRoom user c isMounted res (cells cm)\<rparr>"
| "step parse (Save user roomCode nowIso res) cm =
     cm\<lparr>cells := handleSave user roomCode nowIso res (cells cm)\<rparr>"
| "step parse (OnRemoteUpdate payload_new) cm = receive parse payload_new cm"
| "step parse Render cm = render parse cm"

fun run :: "(string \<Rightarrow> int option) \<Rightarrow> operation list \<Rightarrow> Room_component \<Rightarrow> Room_component" where
  "run parse [] cm = cm"
| "run parse (x # xs) cm = run parse xs (step parse x cm)"

subsection \<open>The dashboard: \<^verbatim>\<open>handleJoinRoom\<close> and \<^verbatim>\<open>generateRoomCode\<close>\<close>















subsection \<open>Predicates of the statements\<close>

text \<open>
  The time value of an event's timestamp: \<open>None\<close> when the timestamp is absent, empty
  or not read by \<open>parse\<close>.
\<close>

definition time_of :: "(string \<Rightarrow> int option) \<Rightarrow> RoomRow \<Rightarrow> int option" where
  "time_of parse e = (if truthy (updated_at e) then parse_arg parse (updated_at e) else None)"

definition the_time :: "(string \<Rightarrow> int option) \<Rightarrow> RoomRow \<Rightarrow> int" where
  "the_time parse e = (case time_of parse e of None \<Rightarrow> 0 | Some t \<Rightarrow> t)"

text \<open>\<^verbatim>\<open>user.email\<close> of the user who saves.\<close>

definition the_email :: "User option \<Rightarrow> string option" where
  "the_email user = (case user of None \<Rightarrow> None | Some u \<Rightarrow> email u)"

text \<open>The query found no record: no data, and no error but \<^verbatim>\<open>PGRST116\<close>.\<close>

definition not_found :: "fetch_result \<Rightarrow> bool" where
  "not_found r = (fdata r = None \<and> \<not> load_throws r)"

text \<open>The watermark \<open>a\<close> is \<open>b\<close> or strictly newer than \<open>b\<close>.\<close>

definition newer_or_same :: "(string \<Rightarrow> int option) \<Rightarrow> string option \<Rightarrow> string option \<Rightarrow> bool" where
  "newer_or_same parse a b = (a = b \<or> isNewer parse a b)"

text \<open>The record \<^verbatim>\<open>loadRoom\<close> applies, if it applies one.\<close>

definition loaded_row :: "User option \<Rightarrow> fetch_result awaited \<Rightarrow> RoomRow option" where
  "loaded_row user res =
     (if user = None then None
      else (case res of
              Rejected \<Rightarrow> None
            | Resolved r \<Rightarrow> if load_throws r then None else fdata r))"

text \<open>The content \<^verbatim>\<open>loadRoom\<close> leaves in the buffer.\<close>

definition loaded_content :: "User option \<Rightarrow> bool \<Rightarrow> fetch_result awaited \<Rightarrow> string \<Rightarrow> string" where
  "loaded_content user isMounted res old =
     (case loaded_row user res of
        None \<Rightarrow> old
      | Some room \<Rightarrow> if isMounted then or_empty (content_col room) else old)"

text \<open>
  An operation is in order for a component when the timestamp it would store as the
  watermark without a comparison (the fetched record's for a load, the clock's for a
  successful save) is the current watermark or strictly newer. The callback and the
  render are always in order: they compare by themselves.
\<close>

fun in_order :: "(string \<Rightarrow> int option) \<Rightarrow> operation \<Rightarrow> Room_component \<Rightarrow> bool" where
  "in_order parse (Load user c isMounted res) cm =
     (case loaded_row user res of
        None \<Rightarrow> True
      | Some room \<Rightarrow> newer_or_same parse (updated_at room) (lastAppliedAt (cells cm)))"
| "in_order parse (Save user roomCode nowIso res) cm =
     (if save_succeeds user roomCode res
      then newer_or_same parse (Some nowIso) (lastAppliedAt (cells cm)) else True)"
| "in_order parse (OnRemoteUpdate payload_new) cm = True"
| "in_order parse Render cm = True"

fun all_in_order :: "(string \<Rightarrow> int option) \<Rightarrow> operation list \<Rightarrow> Room_component \<Rightarrow> bool" where
  "all_in_order parse [] cm = True"
| "all_in_order parse (x # xs) cm =
     (in_order parse x cm \<and> all_in_order parse xs (step parse x cm))"

text \<open>The record whose content an operation can put into the buffer.\<close>

fun source_row :: "operation \<Rightarrow> RoomRow option" where
  "source_row (Load user c isMounted res) = (if isMounted then loaded_row user res else None)"
| "source_row (Save user roomCode nowIso res) = None"
| "source_row (OnRemoteUpdate payload_new) = payload_new"
| "source_row Render = None"

subsection \<open>Concrete inputs\<close>

definition jan1 :: string where "jan1 = ''2024-01-01T00:00:00Z''"
definition jan2 :: string where "jan2 = ''2024-01-02T00:00:00Z''"
definition jan3 :: string where "jan3 = ''2024-01-03T00:00:00.000Z''"
definition jan4 :: string where "jan4 = ''2024-01-04T12:30:00.250Z''"

definition row_at :: "string option \<Rightarrow> string \<Rightarrow> string option \<Rightarrow> RoomRow" where
  "row_at ts txt who =
     \<lparr>id_col = ''r1'', code = ''ABC123'', name = Some ''Room ABC123'',
      content_col = Some txt, editor_email = who, updated_at = ts\<rparr>"

definition alice :: User where
  "alice = \<lparr>user_id = ''u1'', email = Some ''alice@example.com''\<rparr>"

definition bob :: "string option" where
  "bob = Some ''bob@example.com''"

text \<open>Alice's editor with the watermark \<open>w\<close> and the text \<open>txt\<close> in the buffer.\<close>

definition editing :: "string option \<Rightarrow> string \<Rightarrow> Room_state" where
  "editing w txt =
     (syncMyEmail (Some alice) initial_state)
       \<lparr>content := txt, lastAppliedAt := w, loading := False\<rparr>"

text \<open>A store error that is not \<^verbatim>\<open>PGRST116\<close>.\<close>

definition timeout_error :: store_error where
  "timeout_error = \<lparr>err_code = Some ''57014''\<rparr>"

text \<open>What \<^verbatim>\<open>.single()\<close> resolves to when no row matches.\<close>

definition no_rows :: fetch_result where
  "no_rows = \<lparr>fdata = None, ferror = Some \<lparr>err_code = Some ''PGRST116''\<rparr>\<rparr>"

section \<open>Properties\<close>

subsection \<open>\<^verbatim>\<open>isNewer\<close> is a strict order on what it compares\<close>

lemma isNewer_irrefl: "\<not> isNewer parse a a"
  by (simp add: isNewer_def split: option.splits)

lemma isNewer_asym: "isNewer parse a b \<Longrightarrow> \<not> isNewer parse b a"
  by (auto simp: isNewer_def split: option.splits if_splits)

lemma isNewer_trans: "isNewer parse c b \<Longrightarrow> isNewer parse b a \<Longrightarrow> isNewer parse c a"
  by (auto simp: isNewer_def split: option.splits if_splits)

lemma isNewer_absent: "\<not> truthy b \<Longrightarrow> isNewer parse a b = truthy a"
  by (simp add: isNewer_def)

lemma isNewer_times:
  "truthy a \<Longrightarrow> truthy b \<Longrightarrow> parse_arg parse a = Some da \<Longrightarrow> parse_arg parse b = Some db \<Longrightarrow>
   isNewer parse a b = (da > db)"
  by (simp add: isNewer_def)

lemma isNewer_unparsed:
  "parse_arg parse a = None \<or> parse_arg parse b = None \<Longrightarrow>
   isNewer parse a b = (truthy a \<and> \<not> truthy b)"
  by (auto simp: isNewer_def split: option.splits)

lemma Date_parse_examples:
  "Date_parse ''2024-01-01T00:00:00Z'' = Some 1704067200000"
  "Date_parse ''2024-01-02T00:00:00Z'' = Some 1704153600000"
  by code_simp+

lemma spread_next: "spread prev next = next"
  by (cases prev) (simp_all add: spread_def)

lemma stale_discarded:
  "\<not> isSelfUpdate (myEmail s) e \<Longrightarrow> \<not> isNewer parse (updated_at e) (lastAppliedAt s) \<Longrightarrow>
   onRemoteUpdate parse (Some e) s = s"
  by (simp add: onRemoteUpdate_def)

lemma newer_applied:
  "\<not> isSelfUpdate (myEmail s) e \<Longrightarrow> isNewer parse (updated_at e) (lastAppliedAt s) \<Longrightarrow>
   onRemoteUpdate parse (Some e) s =
     s\<lparr>lastAppliedAt := updated_at e, roomData := Some e, content := or_empty (content_col e)\<rparr>"
  by (simp add: onRemoteUpdate_def)

subsection \<open>The comparison of timestamps\<close>

text \<open>
  Claim C3. A timestamp is absent when it is falsy (\<^verbatim>\<open>null\<close>, \<^verbatim>\<open>undefined\<close> or the empty
  string), as \<^verbatim>\<open>!a\<close> tests it, and present otherwise. Absent against absent is not
  newer; present against absent is newer; absent against present is not newer; two
  present timestamps that both parse compare as time values, strictly later being newer;
  and when either side does not parse the result is \<^verbatim>\<open>!!a && !b\<close>, so it is newer only
  when exactly one side is non-empty, and never when both are present. With the watermark
  \<^verbatim>\<open>null\<close>, an event of another editor stamped 2024-01-01T00:00:00Z is newer and
  applied; with the watermark 2024-01-02T00:00:00Z it is not newer and the state stays as
  it is, for every parser that reads the two strings as the date-time format says.
\<close>

theorem isNewer_policy:
  "(\<not> truthy a \<and> \<not> truthy b \<longrightarrow> \<not> isNewer parse a b)
   \<and> (truthy a \<and> \<not> truthy b \<longrightarrow> isNewer parse a b)
   \<and> (\<not> truthy a \<and> truthy b \<longrightarrow> \<not> isNewer parse a b)
   \<and> (truthy a \<and> truthy b \<and> parse_arg parse a = Some da \<and> parse_arg parse b = Some db
        \<longrightarrow> isNewer parse a b = (da > db))
   \<and> (parse_arg parse a = None \<or> parse_arg parse b = None
        \<longrightarrow> isNewer parse a b = (truthy a \<and> \<not> truthy b)
            \<and> (isNewer parse a b \<longrightarrow> truthy a \<noteq> truthy b)
            \<and> (truthy a \<and> truthy b \<longrightarrow> \<not> isNewer parse a b))
   \<and> (lastAppliedAt s = None \<and> updated_at e = Some ''2024-01-01T00:00:00Z''
        \<and> \<not> isSelfUpdate (myEmail s) e
        \<longrightarrow> isNewer parse (updated_at e) (lastAppliedAt s)
            \<and> onRemoteUpdate parse (Some e) s =
                s\<lparr>lastAppliedAt := updated_at e, roomData := Some e,
                  content := or_empty (content_col e)\<rparr>)
   \<and> (parse ''2024-01-01T00:00:00Z'' = Date_parse ''2024-01-01T00:00:00Z''
        \<and> parse ''2024-01-02T00:00:00Z'' = Date_parse ''2024-01-02T00:00:00Z''
        \<and> lastAppliedAt s = Some ''2024-01-02T00:00:00Z''
        \<and> updated_at e = Some ''2024-01-01T00:00:00Z''
        \<and> \<not> isSelfUpdate (myEmail s) e
        \<longrightarrow> \<not> isNewer parse (updated_at e) (lastAppliedAt s)
            \<and> onRemoteUpdate parse (Some e) s = s)"
proof -
  have c1: "\<not> truthy a \<and> \<not> truthy b \<longrightarrow> \<not> isNewer parse a b"
    by (simp add: isNewer_absent)
  have c2: "truthy a \<and> \<not> truthy b \<longrightarrow> isNewer parse a b"
    by (simp add: isNewer_absent)
  have c3: "\<not> truthy a \<and> truthy b \<longrightarrow> \<not> isNewer parse a b"
    by (simp add: isNewer_def)
  have c4: "truthy a \<and> truthy b \<and> parse_arg parse a = Some da \<and> parse_arg parse b = Some db
        \<longrightarrow> isNewer parse a b = (da > db)"
    by (simp add: isNewer_times)
  have c5: "parse_arg parse a = None \<or> parse_arg parse b = None
        \<longrightarrow> isNewer parse a b = (truthy a \<and> \<not> truthy b)
            \<and> (isNewer parse a b \<longrightarrow> truthy a \<noteq> truthy b)
            \<and> (truthy a \<and> truthy b \<longrightarrow> \<not> isNewer parse a b)"
  proof
    assume u: "parse_arg parse a = None \<or> parse_arg parse b = None"
    from isNewer_unparsed [OF u] have "isNewer parse a b = (truthy a \<and> \<not> truthy b)" .
    then show "isNewer parse a b = (truthy a \<and> \<not> truthy b)
            \<and> (isNewer parse a b \<longrightarrow> truthy a \<noteq> truthy b)
            \<and> (truthy a \<and> truthy b \<longrightarrow> \<not> isNewer parse a b)"
      by simp
  qed
  have c6: "lastAppliedAt s = None \<and> updated_at e = Some ''2024-01-01T00:00:00Z''
        \<and> \<not> isSelfUpdate (myEmail s) e
        \<longrightarrow> isNewer parse (updated_at e) (lastAppliedAt s)
            \<and> onRemoteUpdate parse (Some e) s =
                s\<lparr>lastAppliedAt := updated_at e, roomData := Some e,
                  content := or_empty (content_col e)\<rparr>"
  proof
    assume h: "lastAppliedAt s = None \<and> updated_at e = Some ''2024-01-01T00:00:00Z''
        \<and> \<not> isSelfUpdate (myEmail s) e"
    then have n: "isNewer parse (updated_at e) (lastAppliedAt s)"
      by (simp add: isNewer_absent truthy_def)
    with h show "isNewer parse (updated_at e) (lastAppliedAt s)
            \<and> onRemoteUpdate parse (Some e) s =
                s\<lparr>lastAppliedAt := updated_at e, roomData := Some e,
                  content := or_empty (content_col e)\<rparr>"
      by (simp add: newer_applied)
  qed
  have c7: "parse ''2024-01-01T00:00:00Z'' = Date_parse ''2024-01-01T00:00:00Z''
        \<and> parse ''2024-01-02T00:00:00Z'' = Date_parse ''2024-01-02T00:00:00Z''
        \<and> lastAppliedAt s = Some ''2024-01-02T00:00:00Z''
        \<and> updated_at e = Some ''2024-01-01T00:00:00Z''
        \<and> \<not> isSelfUpdate (myEmail s) e
        \<longrightarrow> \<not> isNewer parse (updated_at e) (lastAppliedAt s)
            \<and> onRemoteUpdate parse (Some e) s = s"
  proof
    assume h: "parse ''2024-01-01T00:00:00Z'' = Date_parse ''2024-01-01T00:00:00Z''
        \<and> parse ''2024-01-02T00:00:00Z'' = Date_parse ''2024-01-02T00:00:00Z''
        \<and> lastAppliedAt s = Some ''2024-01-02T00:00:00Z''
        \<and> updated_at e = Some ''2024-01-01T00:00:00Z''
        \<and> \<not> isSelfUpdate (myEmail s) e"
    then have n: "\<not> isNewer parse (updated_at e) (lastAppliedAt s)"
      by (simp add: isNewer_def truthy_def parse_arg_def Date_parse_examples)
    with h show "\<not> isNewer parse (updated_at e) (lastAppliedAt s)
            \<and> onRemoteUpdate parse (Some e) s = s"
      by (simp add: stale_discarded)
  qed
  show ?thesis by (intro conjI c1 c2 c3 c4 c5 c6 c7)
qed

theorem isNewer_policy_witness:
  "\<not> isNewer Date_parse None (Some [])
   \<and> isNewer Date_parse (Some jan1) None
   \<and> \<not> isNewer Date_parse None (Some jan1)
   \<and> isNewer Date_parse (Some jan2) (Some jan1)
   \<and> \<not> isNewer Date_parse (Some ''tomorrow'') (Some jan1)
   \<and> content (onRemoteUpdate Date_parse (Some (row_at (Some jan1) ''hello'' bob))
        (editing None ''draft'')) = ''hello''
   \<and> onRemoteUpdate Date_parse (Some (row_at (Some jan1) ''hello'' bob))
        (editing (Some jan2) ''draft'') = editing (Some jan2) ''draft''"
proof (intro conjI)
  have "\<not> truthy None \<and> \<not> truthy (Some [])" by code_simp
  with isNewer_policy [where a = None and b = "Some []" and parse = Date_parse]
  show "\<not> isNewer Date_parse None (Some [])" by blast
next
  have "truthy (Some jan1) \<and> \<not> truthy None" by code_simp
  with isNewer_policy [where a = "Some jan1" and b = None and parse = Date_parse]
  show "isNewer Date_parse (Some jan1) None" by blast
next
  have "\<not> truthy None \<and> truthy (Some jan1)" by code_simp
  with isNewer_policy [where a = None and b = "Some jan1" and parse = Date_parse]
  show "\<not> isNewer Date_parse None (Some jan1)" by blast
next
  have "truthy (Some jan2) \<and> truthy (Some jan1)
      \<and> parse_arg Date_parse (Some jan2) = Some 1704153600000
      \<and> parse_arg Date_parse (Some jan1) = Some 1704067200000" by code_simp
  with isNewer_policy [where a = "Some jan2" and b = "Some jan1" and parse = Date_parse
      and da = 1704153600000 and db = 1704067200000]
  have "isNewer Date_parse (Some jan2) (Some jan1) = (1704153600000 > (1704067200000::int))"
    by blast
  then show "isNewer Date_parse (Some jan2) (Some jan1)" by simp
next
  have "parse_arg Date_parse (Some ''tomorrow'') = None" by code_simp
  moreover have "truthy (Some ''tomorrow'') \<and> truthy (Some jan1)" by code_simp
  ultimately show "\<not> isNewer Date_parse (Some ''tomorrow'') (Some jan1)"
    using isNewer_policy [where a = "Some ''tomorrow''" and b = "Some jan1"
        and parse = Date_parse]
    by blast
next
  let ?s = "editing None ''draft''" and ?e = "row_at (Some jan1) ''hello'' bob"
  have "lastAppliedAt ?s = None \<and> updated_at ?e = Some ''2024-01-01T00:00:00Z''
      \<and> \<not> isSelfUpdate (myEmail ?s) ?e" by code_simp
  with isNewer_policy [where s = "?s" and e = "?e" and parse = Date_parse]
  have "onRemoteUpdate Date_parse (Some ?e) ?s =
          ?s\<lparr>lastAppliedAt := updated_at ?e, roomData := Some ?e,
             content := or_empty (content_col ?e)\<rparr>"
    by blast
  then show "content (onRemoteUpdate Date_parse (Some ?e) ?s) = ''hello''"
    by (simp add: row_at_def or_empty_def)
next
  let ?s = "editing (Some jan2) ''draft''" and ?e = "row_at (Some jan1) ''hello'' bob"
  have "Date_parse ''2024-01-01T00:00:00Z'' = Date_parse ''2024-01-01T00:00:00Z''
      \<and> Date_parse ''2024-01-02T00:00:00Z'' = Date_parse ''2024-01-02T00:00:00Z''
      \<and> lastAppliedAt ?s = Some ''2024-01-02T00:00:00Z''
      \<and> updated_at ?e = Some ''2024-01-01T00:00:00Z''
      \<and> \<not> isSelfUpdate (myEmail ?s) ?e" by code_simp
  with isNewer_policy [where s = "?s" and e = "?e" and parse = Date_parse]
  show "onRemoteUpdate Date_parse (Some ?e) ?s = ?s" by blast
qed

subsection \<open>The classification of an event as the user's own\<close>

text \<open>
  Claim C5, as stated, at two absent identities: the event's editor and the local user
  are both \<^verbatim>\<open>null\<close>, hence equal, and the event is not classified as a self-update.
\<close>

theorem isSelfUpdate_null_counterexample:
  "editor_email (row_at (Some jan1) ''hello'' None) = myEmail initial_state
   \<and> \<not> isSelfUpdate (myEmail initial_state) (row_at (Some jan1) ''hello'' None)"
  by code_simp

text \<open>
  Claim C5, amended. An event is classified as a self-update if and only if the local
  identity and the event's editor identity are both present (neither \<^verbatim>\<open>null\<close> nor the
  empty string) and equal.
\<close>

theorem isSelfUpdate_iff:
  "isSelfUpdate me next \<longleftrightarrow> (\<exists>e. e \<noteq> [] \<and> me = Some e \<and> editor_email next = Some e)"
  by (auto simp: isSelfUpdate_def truthy_def split: option.splits)

subsection \<open>Self-updates\<close>

text \<open>
  Claim C2. For every event the callback classifies as a self-update, whatever its
  timestamp, the content buffer is left as it is. Only metadata is merged: the room
  record takes the event's columns, the watermark moves to the event's timestamp when
  that is newer than the watermark and stays otherwise, and no other part of the state
  changes.
\<close>

theorem self_update_keeps_content:
  assumes "isSelfUpdate (myEmail s) e"
  shows "content (onRemoteUpdate parse (Some e) s) = content s
     \<and> lastAppliedAt (onRemoteUpdate parse (Some e) s) =
         (if isNewer parse (updated_at e) (lastAppliedAt s) then updated_at e
          else lastAppliedAt s)
     \<and> roomData (onRemoteUpdate parse (Some e) s) = Some (spread (roomData s) e)
     \<and> (onRemoteUpdate parse (Some e) s)
          \<lparr>roomData := roomData s, lastAppliedAt := lastAppliedAt s\<rparr> = s"
  using assms by (simp add: onRemoteUpdate_def)

theorem self_update_keeps_content_witness:
  "isSelfUpdate (myEmail (editing (Some jan2) ''my draft''))
     (row_at (Some jan3) ''saved text'' (email alice))
   \<and> content (onRemoteUpdate Date_parse (Some (row_at (Some jan3) ''saved text'' (email alice)))
        (editing (Some jan2) ''my draft'')) = ''my draft''
   \<and> lastAppliedAt (onRemoteUpdate Date_parse
        (Some (row_at (Some jan3) ''saved text'' (email alice)))
        (editing (Some jan2) ''my draft'')) = Some jan3"
proof -
  let ?s = "editing (Some jan2) ''my draft''"
  let ?e = "row_at (Some jan3) ''saved text'' (email alice)"
  have h: "isSelfUpdate (myEmail ?s) ?e" by code_simp
  have c: "content ?s = ''my draft''" by code_simp
  have n: "isNewer Date_parse (updated_at ?e) (lastAppliedAt ?s)" by code_simp
  have u: "updated_at ?e = Some jan3" by code_simp
  from self_update_keeps_content [OF h, of Date_parse] h c n u show ?thesis by simp
qed

subsection \<open>Stale and repeated events\<close>

text \<open>
  Claim C9. Delivering an event a second time changes nothing: the callback is
  idempotent on the whole state. An event whose timestamp is not strictly newer than the
  watermark leaves the content buffer and the watermark as they are and raises no toast
  and no navigation; when it is another editor's it leaves the whole state as it is.
\<close>

theorem redelivery_idempotent:
  "onRemoteUpdate parse ev (onRemoteUpdate parse ev s) = onRemoteUpdate parse ev s
   \<and> (\<not> isNewer parse (updated_at e) (lastAppliedAt s) \<longrightarrow>
        content (onRemoteUpdate parse (Some e) s) = content s
      \<and> lastAppliedAt (onRemoteUpdate parse (Some e) s) = lastAppliedAt s
      \<and> toasts (onRemoteUpdate parse (Some e) s) = toasts s
      \<and> navigated (onRemoteUpdate parse (Some e) s) = navigated s
      \<and> (\<not> isSelfUpdate (myEmail s) e \<longrightarrow> onRemoteUpdate parse (Some e) s = s))"
  by (auto simp: onRemoteUpdate_def isNewer_irrefl spread_next split: option.splits)

theorem redelivery_idempotent_witness:
  "content (onRemoteUpdate Date_parse (Some (row_at (Some jan2) ''second'' bob))
      (editing (Some jan1) ''draft'')) = ''second''
   \<and> onRemoteUpdate Date_parse (Some (row_at (Some jan2) ''second'' bob))
        (onRemoteUpdate Date_parse (Some (row_at (Some jan2) ''second'' bob))
           (editing (Some jan1) ''draft''))
      = onRemoteUpdate Date_parse (Some (row_at (Some jan2) ''second'' bob))
          (editing (Some jan1) ''draft'')
   \<and> \<not> isNewer Date_parse (updated_at (row_at (Some jan2) ''second'' bob))
        (lastAppliedAt (editing (Some jan3) ''draft''))
   \<and> onRemoteUpdate Date_parse (Some (row_at (Some jan2) ''second'' bob))
        (editing (Some jan3) ''draft'') = editing (Some jan3) ''draft''"
proof -
  let ?e = "row_at (Some jan2) ''second'' bob"
  let ?s = "editing (Some jan1) ''draft''"
  let ?s3 = "editing (Some jan3) ''draft''"
  have a: "content (onRemoteUpdate Date_parse (Some ?e) ?s) = ''second''" by code_simp
  have h1: "\<not> isNewer Date_parse (updated_at ?e) (lastAppliedAt ?s3)" by code_simp
  have h2: "\<not> isSelfUpdate (myEmail ?s3) ?e" by code_simp
  from redelivery_idempotent [of Date_parse "Some ?e" ?s]
  have i: "onRemoteUpdate Date_parse (Some ?e) (onRemoteUpdate Date_parse (Some ?e) ?s)
      = onRemoteUpdate Date_parse (Some ?e) ?s" by blast
  from redelivery_idempotent [of Date_parse "Some ?e" ?s3 ?e] h1 h2
  have d: "onRemoteUpdate Date_parse (Some ?e) ?s3 = ?s3" by blast
  from a i h1 d show ?thesis by blast
qed

subsection \<open>The latest event wins\<close>

lemma deliver_append: "deliver parse (xs @ ys) s = deliver parse ys (deliver parse xs s)"
  by (induction xs arbitrary: s) simp_all

lemma onRemoteUpdate_myEmail: "myEmail (onRemoteUpdate parse ev s) = myEmail s"
  by (simp add: onRemoteUpdate_def split: option.splits)

lemma deliver_myEmail: "myEmail (deliver parse es s) = myEmail s"
  by (induction es arbitrary: s) (simp_all add: onRemoteUpdate_myEmail)

lemma onRemoteUpdate_watermark:
  "lastAppliedAt (onRemoteUpdate parse (Some e) s) = lastAppliedAt s
   \<or> lastAppliedAt (onRemoteUpdate parse (Some e) s) = updated_at e"
  by (simp add: onRemoteUpdate_def)

lemma deliver_watermark:
  "lastAppliedAt (deliver parse es s) = lastAppliedAt s
   \<or> (\<exists>e \<in> set es. lastAppliedAt (deliver parse es s) = updated_at e)"
proof (induction es arbitrary: s)
  case Nil
  show ?case by simp
next
  case (Cons x xs)
  let ?s1 = "onRemoteUpdate parse (Some x) s"
  from Cons.IH [of ?s1] onRemoteUpdate_watermark [of parse x s]
  show ?case by auto
qed

lemma deliver_stale:
  "\<forall>e \<in> set es. \<not> isSelfUpdate (myEmail s) e \<and> \<not> isNewer parse (updated_at e) (lastAppliedAt s)
   \<Longrightarrow> deliver parse es s = s"
  by (induction es) (simp_all add: stale_discarded)

lemma time_of_newer:
  "time_of parse a = Some ta \<Longrightarrow> time_of parse b = Some tb \<Longrightarrow>
   isNewer parse (updated_at a) (updated_at b) = (ta > tb)"
  by (auto simp: time_of_def isNewer_def split: if_splits)

text \<open>
  Claim C1. Let \<open>es\<close> be a finite sequence of events of other editors, in the order of
  their delivery, whatever it is, whose timestamps are present and parse to pairwise
  distinct time values. Let \<open>m\<close> be the one with the greatest time value, and let its
  timestamp be newer than the watermark held before the first delivery. After the last
  delivery the content buffer holds the content of \<open>m\<close> (the empty text when that is
  \<^verbatim>\<open>null\<close>), the watermark is the timestamp of \<open>m\<close> and the room record is \<open>m\<close>.
\<close>

theorem deliver_latest_wins:
  assumes remote: "\<forall>e \<in> set es. \<not> isSelfUpdate (myEmail s) e"
    and valid: "\<forall>e \<in> set es. time_of parse e \<noteq> None"
    and dist: "distinct (map (time_of parse) es)"
    and m: "m \<in> set es"
    and mx: "\<forall>e \<in> set es. the_time parse e \<le> the_time parse m"
    and newer: "isNewer parse (updated_at m) (lastAppliedAt s)"
  shows "content (deliver parse es s) = or_empty (content_col m)
         \<and> lastAppliedAt (deliver parse es s) = updated_at m
         \<and> roomData (deliver parse es s) = Some m"
proof -
  from m obtain pre post where es: "es = pre @ m # post"
    by (auto simp: in_set_conv_decomp)
  from valid m obtain tm where tm: "time_of parse m = Some tm" by auto
  have lt: "t < tm" if "e \<in> set pre \<union> set post" "time_of parse e = Some t" for e t
  proof -
    from that(1) have "e \<in> set es" by (auto simp: es)
    with mx have "the_time parse e \<le> the_time parse m" by blast
    with tm that(2) have "t \<le> tm" by (simp add: the_time_def)
    moreover have "time_of parse e \<noteq> time_of parse m"
      using dist that(1) by (auto simp: es image_iff)
    ultimately show ?thesis using tm that(2) by simp
  qed
  let ?s1 = "deliver parse pre s"
  have me1: "myEmail ?s1 = myEmail s" by (rule deliver_myEmail)
  have newer1: "isNewer parse (updated_at m) (lastAppliedAt ?s1)"
  proof -
    from deliver_watermark [of parse pre s]
    consider "lastAppliedAt ?s1 = lastAppliedAt s"
      | e where "e \<in> set pre" "lastAppliedAt ?s1 = updated_at e" by blast
    then show ?thesis
    proof cases
      case 1
      with newer show ?thesis by simp
    next
      case 2
      from 2(1) valid obtain t where t: "time_of parse e = Some t" by (auto simp: es)
      with lt [of e t] 2(1) have "t < tm" by simp
      with time_of_newer [OF tm t] 2(2) show ?thesis by simp
    qed
  qed
  let ?s2 = "onRemoteUpdate parse (Some m) ?s1"
  from remote m me1 have "\<not> isSelfUpdate (myEmail ?s1) m" by simp
  with newer1 have s2: "?s2 = ?s1\<lparr>lastAppliedAt := updated_at m, roomData := Some m,
                                   content := or_empty (content_col m)\<rparr>"
    by (simp add: newer_applied)
  have "deliver parse post ?s2 = ?s2"
  proof (rule deliver_stale, rule ballI)
    fix e assume e: "e \<in> set post"
    from e valid obtain t where t: "time_of parse e = Some t" by (auto simp: es)
    with lt [of e t] e have "t < tm" by simp
    with time_of_newer [OF t tm] have "\<not> isNewer parse (updated_at e) (updated_at m)" by simp
    moreover from remote e have "\<not> isSelfUpdate (myEmail s) e" by (simp add: es)
    ultimately show "\<not> isSelfUpdate (myEmail ?s2) e
        \<and> \<not> isNewer parse (updated_at e) (lastAppliedAt ?s2)"
      by (simp add: s2 me1)
  qed
  then have "deliver parse es s = ?s2" by (simp add: es deliver_append)
  then show ?thesis by (simp add: s2)
qed

theorem deliver_latest_wins_witness:
  "distinct (map (time_of Date_parse)
      [row_at (Some jan3) ''third'' bob, row_at (Some jan4) ''fourth'' bob,
       row_at (Some jan2) ''second'' bob])
   \<and> isNewer Date_parse (updated_at (row_at (Some jan4) ''fourth'' bob))
        (lastAppliedAt (editing (Some jan1) ''draft''))
   \<and> content (deliver Date_parse
        [row_at (Some jan3) ''third'' bob, row_at (Some jan4) ''fourth'' bob,
         row_at (Some jan2) ''second'' bob] (editing (Some jan1) ''draft'')) = ''fourth''"
proof -
  let ?es = "[row_at (Some jan3) ''third'' bob, row_at (Some jan4) ''fourth'' bob,
       row_at (Some jan2) ''second'' bob]"
  let ?s = "editing (Some jan1) ''draft''"
  let ?m = "row_at (Some jan4) ''fourth'' bob"
  have h1: "\<forall>e \<in> set ?es. \<not> isSelfUpdate (myEmail ?s) e" by code_simp
  have h2: "\<forall>e \<in> set ?es. time_of Date_parse e \<noteq> None" by code_simp
  have h3: "distinct (map (time_of Date_parse) ?es)" by code_simp
  have h4: "?m \<in> set ?es" by simp
  have h5: "\<forall>e \<in> set ?es. the_time Date_parse e \<le> the_time Date_parse ?m" by code_simp
  have h6: "isNewer Date_parse (updated_at ?m) (lastAppliedAt ?s)" by code_simp
  from deliver_latest_wins [OF h1 h2 h3 h4 h5 h6]
  have "content (deliver Date_parse ?es ?s) = or_empty (content_col ?m)" by blast
  then have "content (deliver Date_parse ?es ?s) = ''fourth''"
    by (simp add: row_at_def or_empty_def)
  with h3 h6 show ?thesis by blast
qed

subsection \<open>Saving\<close>

lemma handleSave_watermark:
  "lastAppliedAt (handleSave user roomCode nowIso res s) =
     (if save_succeeds user roomCode res then Some nowIso else lastAppliedAt s)"
  by (auto simp: handleSave_def save_succeeds_def toast_def Let_def
      split: option.splits awaited.splits)

lemma handleSave_content: "content (handleSave user roomCode nowIso res s) = content s"
  by (auto simp: handleSave_def toast_def Let_def split: option.splits awaited.splits)

text \<open>
  Claim C6. A successful save sends one update that carries the buffer, the user's
  email and the clock reading \<open>nowIso\<close>, and sets the watermark to exactly \<open>nowIso\<close>; the
  buffer is not touched. An event with that same timestamp delivered right after the
  save, the echo of the save among them, leaves the buffer and the watermark as they are.
\<close>

theorem save_then_echo:
  assumes "save_succeeds user roomCode res" and "updated_at e = Some nowIso"
  shows "lastAppliedAt (handleSave user roomCode nowIso res s) = Some nowIso
     \<and> requests (handleSave user roomCode nowIso res s) = requests s @
         [Update \<lparr>upd_content = content s, upd_editor_email = the_email user,
                  upd_updated_at = nowIso, upd_code = or_empty roomCode\<rparr>]
     \<and> content (handleSave user roomCode nowIso res s) = content s
     \<and> content (onRemoteUpdate parse (Some e) (handleSave user roomCode nowIso res s)) = content s
     \<and> lastAppliedAt (onRemoteUpdate parse (Some e) (handleSave user roomCode nowIso res s))
         = Some nowIso"
  using assms
  by (auto simp: save_succeeds_def handleSave_def toast_def Let_def the_email_def
      onRemoteUpdate_def isNewer_irrefl)

theorem save_then_echo_witness:
  "save_succeeds (Some alice) (Some ''ABC123'') (Resolved None)
   \<and> lastAppliedAt (handleSave (Some alice) (Some ''ABC123'') jan3 (Resolved None)
        (editing (Some jan1) ''my text'')) = Some jan3
   \<and> content (onRemoteUpdate Date_parse (Some (row_at (Some jan3) ''my text'' (email alice)))
        (handleSave (Some alice) (Some ''ABC123'') jan3 (Resolved None)
           (editing (Some jan1) ''my text''))) = ''my text''"
proof -
  let ?s = "editing (Some jan1) ''my text''"
  let ?e = "row_at (Some jan3) ''my text'' (email alice)"
  have h1: "save_succeeds (Some alice) (Some ''ABC123'') (Resolved None)" by code_simp
  have h2: "updated_at ?e = Some jan3" by code_simp
  have c: "content ?s = ''my text''" by code_simp
  from save_then_echo [OF h1 h2, of ?s Date_parse] h1 c show ?thesis by simp
qed

text \<open>
  Claim C7. When the update of a save fails (the store answers with an error, or the
  request throws), the destructive toast \<^verbatim>\<open>Save failed\<close> is raised and the editor keeps
  its state: the buffer, the watermark and the room record are as before the save, the
  saving flag is cleared, nothing navigates, and the update was sent once.
\<close>

theorem save_failure_keeps_state:
  assumes "save_fails user roomCode res"
  shows "content (handleSave user roomCode nowIso res s) = content s
     \<and> lastAppliedAt (handleSave user roomCode nowIso res s) = lastAppliedAt s
     \<and> roomData (handleSave user roomCode nowIso res s) = roomData s
     \<and> toasts (handleSave user roomCode nowIso res s) = toasts s @ [save_failed]
     \<and> destructive save_failed
     \<and> navigated (handleSave user roomCode nowIso res s) = navigated s
     \<and> isSaving (handleSave user roomCode nowIso res s) = False
     \<and> length (requests (handleSave user roomCode nowIso res s)) = Suc (length (requests s))"
  using assms
  by (auto simp: save_fails_def handleSave_def toast_def Let_def save_failed_def
      split: awaited.splits option.splits)

theorem save_failure_keeps_state_witness:
  "save_fails (Some alice) (Some ''ABC123'') (Resolved (Some timeout_error))
   \<and> content (handleSave (Some alice) (Some ''ABC123'') jan3 (Resolved (Some timeout_error))
        (editing (Some jan1) ''my text'')) = ''my text''
   \<and> lastAppliedAt (handleSave (Some alice) (Some ''ABC123'') jan3
        (Resolved (Some timeout_error)) (editing (Some jan1) ''my text'')) = Some jan1
   \<and> toasts (handleSave (Some alice) (Some ''ABC123'') jan3 (Resolved (Some timeout_error))
        (editing (Some jan1) ''my text'')) = [save_failed]"
proof -
  let ?s = "editing (Some jan1) ''my text''"
  have h: "save_fails (Some alice) (Some ''ABC123'') (Resolved (Some timeout_error))"
    by code_simp
  have c: "content ?s = ''my text''" "lastAppliedAt ?s = Some jan1" "toasts ?s = []"
    by code_simp+
  from save_failure_keeps_state [OF h, of jan3 ?s] h c show ?thesis by simp
qed

subsection \<open>Loading\<close>

lemma loadRoom_watermark:
  "lastAppliedAt (loadRoom user c isMounted res s) =
     (case loaded_row user res of None \<Rightarrow> lastAppliedAt s | Some room \<Rightarrow> updated_at room)"
  by (auto simp: loadRoom_def loaded_row_def load_finally_def load_catch_def toast_def
      navigate_def Let_def split: option.splits awaited.splits)

text \<open>
  Claim C8. The mount effect calls \<^verbatim>\<open>loadRoom(roomCode, isMounted)\<close> with a user and
  with \<^verbatim>\<open>isMounted\<close> just set to \<^verbatim>\<open>true\<close>. For such a call: when the query finds no
  record, the toast \<^verbatim>\<open>Room not found\<close> is raised, the component navigates to the
  dashboard, and the buffer and the watermark are untouched; and whatever the outcome of
  the query (a record, no record, an error or a thrown request), the loading flag is
  cleared and the query was sent exactly once.
\<close>

theorem load_not_found:
  assumes "user \<noteq> None"
  shows "(not_found r \<longrightarrow>
            toasts (loadRoom user c True (Resolved r) s) = toasts s @ [room_not_found]
          \<and> title room_not_found = ''Room not found''
          \<and> navigated (loadRoom user c True (Resolved r) s) = navigated s @ [''/dashboard'']
          \<and> content (loadRoom user c True (Resolved r) s) = content s
          \<and> lastAppliedAt (loadRoom user c True (Resolved r) s) = lastAppliedAt s)
     \<and> loading (loadRoom user c True res s) = False
     \<and> requests (loadRoom user c True res s) = requests s @ [Select c]"
  using assms
  by (auto simp: not_found_def loadRoom_def load_finally_def load_catch_def toast_def
      navigate_def Let_def room_not_found_def split: awaited.splits option.splits)

theorem load_not_found_witness:
  "not_found no_rows
   \<and> toasts (loadRoom (Some alice) ''ABC123'' True (Resolved no_rows) initial_state)
       = [room_not_found]
   \<and> navigated (loadRoom (Some alice) ''ABC123'' True (Resolved no_rows) initial_state)
       = [''/dashboard'']
   \<and> loading initial_state
   \<and> loading (loadRoom (Some alice) ''ABC123'' True (Resolved no_rows) initial_state) = False
   \<and> requests (loadRoom (Some alice) ''ABC123'' True (Resolved no_rows) initial_state)
       = [Select ''ABC123'']"
proof -
  have u: "Some alice \<noteq> None" by simp
  have h: "not_found no_rows" by code_simp
  have i: "toasts initial_state = []" "navigated initial_state = []"
    "requests initial_state = []" "loading initial_state"
    by code_simp+
  from load_not_found [OF u, of no_rows "''ABC123''" initial_state "Resolved no_rows"] h i
  show ?thesis by simp
qed

lemma loadRoom_content:
  "content (loadRoom user c isMounted res s) = loaded_content user isMounted res (content s)"
  by (auto simp: loadRoom_def loaded_content_def loaded_row_def load_finally_def load_catch_def
      toast_def navigate_def Let_def split: option.splits awaited.splits)

subsection \<open>The watermark across operations\<close>

lemma newer_or_same_trans:
  "newer_or_same parse c b \<Longrightarrow> newer_or_same parse b a \<Longrightarrow> newer_or_same parse c a"
  by (auto simp: newer_or_same_def intro: isNewer_trans)

lemma updater_effect_advances:
  "newer_or_same parse (lastAppliedAt (updater_effect parse e s)) (lastAppliedAt s)"
  by (simp add: updater_effect_def newer_or_same_def)

lemma updaters_advance:
  "newer_or_same parse
     (lastAppliedAt (foldl (\<lambda>s next. updater_effect parse next s) s es)) (lastAppliedAt s)"
proof (induction es arbitrary: s)
  case Nil
  show ?case by (simp add: newer_or_same_def)
next
  case (Cons e es)
  from Cons.IH [of "updater_effect parse e s"] updater_effect_advances [of parse e s]
  show ?case by (auto intro: newer_or_same_trans)
qed

lemma updaters_content:
  "content (foldl (\<lambda>s next. updater_effect parse next s) s es) = content s"
  by (induction es arbitrary: s) (simp_all add: updater_effect_def)

lemma onRemoteUpdate_advances:
  "newer_or_same parse (lastAppliedAt (onRemoteUpdate parse ev s)) (lastAppliedAt s)"
  by (simp add: onRemoteUpdate_def newer_or_same_def split: option.splits)

lemma receive_advances:
  "newer_or_same parse (lastAppliedAt (cells (receive parse ev c))) (lastAppliedAt (cells c))"
proof (cases ev)
  case None
  then show ?thesis by (simp add: receive_def newer_or_same_def)
next
  case (Some e)
  show ?thesis
  proof (cases "isSelfUpdate (myEmail (cells c)) e")
    case True
    with Some show ?thesis by (simp add: receive_def newer_or_same_def)
  next
    case False
    with Some show ?thesis by (simp add: receive_def onRemoteUpdate_advances)
  qed
qed

text \<open>
  When no updater is pending and React runs the updater of an event before anything
  else happens, the callback is \<open>onRemoteUpdate\<close>.
\<close>

lemma render_receive:
  "render parse (receive parse ev (mounted s)) = mounted (onRemoteUpdate parse ev s)"
  by (cases ev)
     (simp_all add: render_def receive_def mounted_def onRemoteUpdate_def updater_effect_def)

lemma step_advances:
  "newer_or_same parse (lastAppliedAt (cells (step parse x c))) (lastAppliedAt (cells c))"
  if "in_order parse x c"
proof (cases x)
  case (Load user cd isMounted res)
  with that show ?thesis
    by (auto simp: loadRoom_watermark newer_or_same_def split: option.splits)
next
  case (Save user roomCode nowIso res)
  with that show ?thesis
    by (auto simp: handleSave_watermark newer_or_same_def split: if_splits)
next
  case (OnRemoteUpdate payload_new)
  then show ?thesis by (simp add: receive_advances)
next
  case Render
  then show ?thesis by (simp add: render_def updaters_advance)
qed

lemma run_append: "run parse (xs @ ys) c = run parse ys (run parse xs c)"
  by (induction xs arbitrary: c) simp_all

lemma all_in_order_append:
  "all_in_order parse (xs @ ys) c =
     (all_in_order parse xs c \<and> all_in_order parse ys (run parse xs c))"
  by (induction xs arbitrary: c) auto

lemma run_advances:
  "all_in_order parse ops c \<Longrightarrow>
   newer_or_same parse (lastAppliedAt (cells (run parse ops c))) (lastAppliedAt (cells c))"
proof (induction ops arbitrary: c)
  case Nil
  show ?case by (simp add: newer_or_same_def)
next
  case (Cons x xs)
  from Cons.prems have a: "in_order parse x c" and b: "all_in_order parse xs (step parse x c)"
    by simp_all
  from Cons.IH [OF b] step_advances [OF a] show ?case
    by (auto intro: newer_or_same_trans)
qed

lemma step_replaces:
  assumes ord: "in_order parse x c"
    and ch: "content (cells (step parse x c)) \<noteq> content (cells c)"
  shows "\<exists>row. source_row x = Some row
           \<and> content (cells (step parse x c)) = or_empty (content_col row)
           \<and> lastAppliedAt (cells (step parse x c)) = updated_at row
           \<and> newer_or_same parse (updated_at row) (lastAppliedAt (cells c))"
proof (cases x)
  case (Load user cd isMounted res)
  with ord ch show ?thesis
    by (auto simp: loadRoom_content loadRoom_watermark loaded_content_def
        split: option.splits if_splits)
next
  case (Save user roomCode nowIso res)
  with ch show ?thesis by (simp add: handleSave_content)
next
  case (OnRemoteUpdate payload_new)
  with ch show ?thesis
    by (cases payload_new)
       (auto simp: receive_def onRemoteUpdate_def newer_or_same_def split: if_splits)
next
  case Render
  with ch show ?thesis by (simp add: render_def updaters_content)
qed

text \<open>
  \<^verbatim>\<open>loadRoom\<close> compares nothing either, though its comment announces that the newer
  update wins: the answer of a load that carries the record of 1 January, arriving after
  the event of 2 January was applied, puts the older text into the buffer and the
  older timestamp into the watermark.
\<close>

lemma load_after_event_example:
  "content (cells (run Date_parse
        [OnRemoteUpdate (Some (row_at (Some jan2) ''new'' bob)),
         Load (Some alice) ''ABC123'' True
           (Resolved \<lparr>fdata = Some (row_at (Some jan1) ''old'' bob), ferror = None\<rparr>)]
        (mounted (editing None [])))) = ''old''
   \<and> lastAppliedAt (cells (run Date_parse
        [OnRemoteUpdate (Some (row_at (Some jan2) ''new'' bob)),
         Load (Some alice) ''ABC123'' True
           (Resolved \<lparr>fdata = Some (row_at (Some jan1) ''old'' bob), ferror = None\<rparr>)]
        (mounted (editing None [])))) = Some jan1"
  by code_simp

text \<open>
  Claim C4, as stated, at a concrete run of Alice's editor, which has no watermark yet.
  An event of another editor stamped 3 January is applied: the watermark is 3 January and
  the buffer holds its text. Alice saves while her clock reads 1 January: the save
  succeeds and the watermark moves back to 1 January, strictly older than 3 January.
  Then an event stamped 2 January arrives, older than the one already applied: it is
  newer than the watermark, so its text replaces the newer text in the buffer.
\<close>

theorem watermark_regresses_counterexample:
  "lastAppliedAt (cells (run Date_parse
        [OnRemoteUpdate (Some (row_at (Some jan3) ''new'' bob))]
        (mounted (editing None [])))) = Some jan3
   \<and> content (cells (run Date_parse
        [OnRemoteUpdate (Some (row_at (Some jan3) ''new'' bob))]
        (mounted (editing None [])))) = ''new''
   \<and> lastAppliedAt (cells (run Date_parse
        [OnRemoteUpdate (Some (row_at (Some jan3) ''new'' bob)),
         Save (Some alice) (Some ''ABC123'') jan1 (Resolved None)]
        (mounted (editing None [])))) = Some jan1
   \<and> isNewer Date_parse (Some jan3) (Some jan1)
   \<and> content (cells (run Date_parse
        [OnRemoteUpdate (Some (row_at (Some jan3) ''new'' bob)),
         Save (Some alice) (Some ''ABC123'') jan1 (Resolved None),
         OnRemoteUpdate (Some (row_at (Some jan2) ''older'' bob))]
        (mounted (editing None [])))) = ''older''
   \<and> lastAppliedAt (cells (run Date_parse
        [OnRemoteUpdate (Some (row_at (Some jan3) ''new'' bob)),
         Save (Some alice) (Some ''ABC123'') jan1 (Resolved None),
         OnRemoteUpdate (Some (row_at (Some jan2) ''older'' bob))]
        (mounted (editing None [])))) = Some jan2
   \<and> isNewer Date_parse (Some jan3) (Some jan2)"
  by code_simp

text \<open>
  Claim C4, amended. Take any sequence of Load, Save and OnRemoteUpdate operations, with
  renders (at which React runs the pending updaters) anywhere in between, from any
  component, in which every successful save and every load that applies a record is in
  order: the timestamp it stores is the watermark of that moment or strictly newer.
  Then the watermark is monotonic: at the end it is the watermark of the start or
  strictly newer, never strictly older. Whenever an operation of the sequence replaces
  the text of the buffer, the new text is the content of a record (the event of the
  callback or the record of the load) whose timestamp becomes the watermark and is equal
  to or strictly newer than the watermark before the operation and than the watermark at
  the start. An in-order load that applies a record stores the record's content and
  timestamp. A save never replaces the buffer, and sets the watermark to its clock
  reading exactly when it succeeds.
\<close>

theorem watermark_monotone_in_order:
  "(all_in_order parse ops cm \<longrightarrow>
      newer_or_same parse (lastAppliedAt (cells (run parse ops cm))) (lastAppliedAt (cells cm))
      \<and> \<not> isNewer parse (lastAppliedAt (cells cm)) (lastAppliedAt (cells (run parse ops cm))))
   \<and> (all_in_order parse (ops @ [x]) cm
        \<and> content (cells (run parse (ops @ [x]) cm)) \<noteq> content (cells (run parse ops cm))
       \<longrightarrow> (\<exists>row. source_row x = Some row
              \<and> content (cells (run parse (ops @ [x]) cm)) = or_empty (content_col row)
              \<and> lastAppliedAt (cells (run parse (ops @ [x]) cm)) = updated_at row
              \<and> newer_or_same parse (updated_at row) (lastAppliedAt (cells (run parse ops cm)))
              \<and> newer_or_same parse (updated_at row) (lastAppliedAt (cells cm))))
   \<and> (in_order parse (Load user c True fres) cm \<and> loaded_row user fres = Some room
       \<longrightarrow> content (cells (step parse (Load user c True fres) cm)) = or_empty (content_col room)
          \<and> lastAppliedAt (cells (step parse (Load user c True fres) cm)) = updated_at room
          \<and> newer_or_same parse (updated_at room) (lastAppliedAt (cells cm)))
   \<and> content (handleSave user roomCode nowIso res s) = content s
   \<and> lastAppliedAt (handleSave user roomCode nowIso res s) =
       (if save_succeeds user roomCode res then Some nowIso else lastAppliedAt s)"
proof -
  have c1: "all_in_order parse ops cm \<longrightarrow>
      newer_or_same parse (lastAppliedAt (cells (run parse ops cm))) (lastAppliedAt (cells cm))
      \<and> \<not> isNewer parse (lastAppliedAt (cells cm)) (lastAppliedAt (cells (run parse ops cm)))"
  proof
    assume a: "all_in_order parse ops cm"
    from run_advances [OF a]
    have n: "newer_or_same parse (lastAppliedAt (cells (run parse ops cm)))
               (lastAppliedAt (cells cm))" .
    then have "\<not> isNewer parse (lastAppliedAt (cells cm))
                   (lastAppliedAt (cells (run parse ops cm)))"
      by (auto simp: newer_or_same_def isNewer_irrefl dest: isNewer_asym)
    with n show "newer_or_same parse (lastAppliedAt (cells (run parse ops cm)))
        (lastAppliedAt (cells cm))
      \<and> \<not> isNewer parse (lastAppliedAt (cells cm)) (lastAppliedAt (cells (run parse ops cm)))"
      by simp
  qed
  have c2: "all_in_order parse (ops @ [x]) cm
        \<and> content (cells (run parse (ops @ [x]) cm)) \<noteq> content (cells (run parse ops cm))
       \<longrightarrow> (\<exists>row. source_row x = Some row
              \<and> content (cells (run parse (ops @ [x]) cm)) = or_empty (content_col row)
              \<and> lastAppliedAt (cells (run parse (ops @ [x]) cm)) = updated_at row
              \<and> newer_or_same parse (updated_at row) (lastAppliedAt (cells (run parse ops cm)))
              \<and> newer_or_same parse (updated_at row) (lastAppliedAt (cells cm)))"
  proof
    let ?c1 = "run parse ops cm"
    assume h: "all_in_order parse (ops @ [x]) cm
        \<and> content (cells (run parse (ops @ [x]) cm)) \<noteq> content (cells (run parse ops cm))"
    then have a: "all_in_order parse ops cm" and o: "in_order parse x ?c1"
      by (simp_all add: all_in_order_append)
    have r: "run parse (ops @ [x]) cm = step parse x ?c1" by (simp add: run_append)
    from h r have ch: "content (cells (step parse x ?c1)) \<noteq> content (cells ?c1)" by simp
    from step_replaces [OF o ch] obtain row where row: "source_row x = Some row"
      "content (cells (step parse x ?c1)) = or_empty (content_col row)"
      "lastAppliedAt (cells (step parse x ?c1)) = updated_at row"
      "newer_or_same parse (updated_at row) (lastAppliedAt (cells ?c1))" by blast
    from row(4) run_advances [OF a]
    have "newer_or_same parse (updated_at row) (lastAppliedAt (cells cm))"
      by (rule newer_or_same_trans)
    with row r show "\<exists>row. source_row x = Some row
              \<and> content (cells (run parse (ops @ [x]) cm)) = or_empty (content_col row)
              \<and> lastAppliedAt (cells (run parse (ops @ [x]) cm)) = updated_at row
              \<and> newer_or_same parse (updated_at row) (lastAppliedAt (cells (run parse ops cm)))
              \<and> newer_or_same parse (updated_at row) (lastAppliedAt (cells cm))"
      by auto
  qed
  have c3: "in_order parse (Load user c True fres) cm \<and> loaded_row user fres = Some room
       \<longrightarrow> content (cells (step parse (Load user c True fres) cm)) = or_empty (content_col room)
          \<and> lastAppliedAt (cells (step parse (Load user c True fres) cm)) = updated_at room
          \<and> newer_or_same parse (updated_at room) (lastAppliedAt (cells cm))"
    by (auto simp: loadRoom_content loadRoom_watermark loaded_content_def)
  have c4: "content (handleSave user roomCode nowIso res s) = content s"
    by (rule handleSave_content)
  have c5: "lastAppliedAt (handleSave user roomCode nowIso res s) =
       (if save_succeeds user roomCode res then Some nowIso else lastAppliedAt s)"
    by (rule handleSave_watermark)
  show ?thesis by (intro conjI c1 c2 c3 c4 c5)
qed

theorem watermark_monotone_in_order_witness:
  "all_in_order Date_parse
      [Load (Some alice) ''ABC123'' True
         (Resolved \<lparr>fdata = Some (row_at (Some jan1) ''first'' bob), ferror = None\<rparr>),
       OnRemoteUpdate (Some (row_at (Some jan4) ''mine'' (email alice))),
       OnRemoteUpdate (Some (row_at (Some jan3) ''third'' bob))]
      (mounted (editing None []))
   \<and> content (cells (run Date_parse
        [Load (Some alice) ''ABC123'' True
           (Resolved \<lparr>fdata = Some (row_at (Some jan1) ''first'' bob), ferror = None\<rparr>),
         OnRemoteUpdate (Some (row_at (Some jan4) ''mine'' (email alice)))]
        (mounted (editing None [])))) = ''first''
   \<and> content (cells (run Date_parse
        [Load (Some alice) ''ABC123'' True
           (Resolved \<lparr>fdata = Some (row_at (Some jan1) ''first'' bob), ferror = None\<rparr>),
         OnRemoteUpdate (Some (row_at (Some jan4) ''mine'' (email alice))),
         OnRemoteUpdate (Some (row_at (Some jan3) ''third'' bob))]
        (mounted (editing None [])))) = ''third''
   \<and> newer_or_same Date_parse (Some jan3) (lastAppliedAt (cells (mounted (editing None []))))
   \<and> all_in_order Date_parse
      [Load (Some alice) ''ABC123'' True
         (Resolved \<lparr>fdata = Some (row_at (Some jan1) ''first'' bob), ferror = None\<rparr>),
       OnRemoteUpdate (Some (row_at (Some jan4) ''mine'' (email alice))),
       OnRemoteUpdate (Some (row_at (Some jan3) ''third'' bob)),
       Render,
       OnRemoteUpdate (Some (row_at (Some jan2) ''second'' bob)),
       Save (Some alice) (Some ''ABC123'') jan4 (Resolved None)]
      (mounted (editing None []))
   \<and> newer_or_same Date_parse
       (lastAppliedAt (cells (run Date_parse
          [Load (Some alice) ''ABC123'' True
             (Resolved \<lparr>fdata = Some (row_at (Some jan1) ''first'' bob), ferror = None\<rparr>),
           OnRemoteUpdate (Some (row_at (Some jan4) ''mine'' (email alice))),
           OnRemoteUpdate (Some (row_at (Some jan3) ''third'' bob)),
           Render,
           OnRemoteUpdate (Some (row_at (Some jan2) ''second'' bob)),
           Save (Some alice) (Some ''ABC123'') jan4 (Resolved None)]
          (mounted (editing None [])))))
       (lastAppliedAt (cells (mounted (editing None []))))"
proof -
  let ?load = "Load (Some alice) ''ABC123'' True
         (Resolved \<lparr>fdata = Some (row_at (Some jan1) ''first'' bob), ferror = None\<rparr>)"
  let ?self = "OnRemoteUpdate (Some (row_at (Some jan4) ''mine'' (email alice)))"
  let ?e = "row_at (Some jan3) ''third'' bob"
  let ?c = "mounted (editing None [])"
  let ?pre = "[?load, ?self]"
  let ?all = "[?load, ?self, OnRemoteUpdate (Some ?e), Render,
       OnRemoteUpdate (Some (row_at (Some jan2) ''second'' bob)),
       Save (Some alice) (Some ''ABC123'') jan4 (Resolved None)]"
  have h1: "all_in_order Date_parse (?pre @ [OnRemoteUpdate (Some ?e)]) ?c" by code_simp
  have b: "content (cells (run Date_parse ?pre ?c)) = ''first''" by code_simp
  have a: "content (cells (run Date_parse (?pre @ [OnRemoteUpdate (Some ?e)]) ?c)) = ''third''"
    by code_simp
  from a b have h2: "content (cells (run Date_parse (?pre @ [OnRemoteUpdate (Some ?e)]) ?c))
      \<noteq> content (cells (run Date_parse ?pre ?c))" by simp
  from watermark_monotone_in_order [where parse = Date_parse and cm = "?c" and ops = "?pre"
      and x = "OnRemoteUpdate (Some ?e)"] h1 h2
  obtain row where row: "source_row (OnRemoteUpdate (Some ?e)) = Some row"
    "newer_or_same Date_parse (updated_at row) (lastAppliedAt (cells ?c))"
    by blast
  from row(1) have "row = ?e" by simp
  with row(2) have n: "newer_or_same Date_parse (Some jan3) (lastAppliedAt (cells ?c))"
    by (simp add: row_at_def)
  have h3: "all_in_order Date_parse ?all ?c" by code_simp
  from watermark_monotone_in_order [where parse = Date_parse and cm = "?c" and ops = "?all"] h3
  have m: "newer_or_same Date_parse (lastAppliedAt (cells (run Date_parse ?all ?c)))
      (lastAppliedAt (cells ?c))" by blast
  from h1 a b n h3 m show ?thesis by simp
qed

subsection \<open>The dashboard\<close>









end
